theory Spec2Isabelle
  imports Complex_Main "HOL-Library.Word" "HOL-Library.Sublist"
begin

section \<open>Data model\<close>

text \<open>
  A JavaScript string is a sequence of UTF-16 code units. Literals of the source are
  ASCII and are written through \<open>ascii\<close>.
\<close>

type_synonym jsstring = "16 word list"

definition ascii :: "string \<Rightarrow> jsstring" where
  "ascii s = map (\<lambda>c. of_nat (of_char c)) s"

text \<open>
  \<^verbatim>\<open>
  export interface EditedVersion { id: string; url: string; prompt: string; timestamp: number; }
  export interface ImageItem {
    id: string; originalUrl: string; currentUrl: string; name: string;
    versions: EditedVersion[]; isProcessing: boolean; }
  \<close>
  The two \<open>id\<close> fields are named \<open>version_id\<close> and \<open>image_id\<close>. A timestamp is
  the millisecond count of \<open>Date.now()\<close>.
\<close>

record edited_version =
  version_id :: jsstring
  url :: jsstring
  prompt :: jsstring
  timestamp :: nat

record image_item =
  image_id :: jsstring
  originalUrl :: jsstring
  currentUrl :: jsstring
  name :: jsstring
  versions :: "edited_version list"
  isProcessing :: bool

section \<open>The collection store (App)\<close>

text \<open>
  \<open>handleUpdateImage\<close> maps over the whole collection. The fresh version id
  (\<open>Math.random().toString(36).substr(2, 9)\<close>) and the time (\<open>Date.now()\<close>) come from
  the environment and are passed in as \<open>fresh\<close> and \<open>now\<close>.
\<close>

definition handleUpdateImage ::
  "jsstring \<Rightarrow> jsstring \<Rightarrow> jsstring \<Rightarrow> jsstring \<Rightarrow> nat \<Rightarrow> image_item list \<Rightarrow> image_item list" where
  "handleUpdateImage i newUrl p fresh now prev =
     map (\<lambda>img.
            if image_id img = i then
              let newVersion = \<lparr>version_id = fresh, url = newUrl, prompt = p, timestamp = now\<rparr>
              in img\<lparr>currentUrl := newUrl, versions := versions img @ [newVersion]\<rparr>
            else img) prev"


text \<open>
  A \<open>Set<string>\<close> keeps its members in insertion order without repetition; it is
  the list of its members in that order. The source uses \<open>has\<close>, \<open>add\<close>,
  \<open>delete\<close> and \<open>size\<close>; \<open>new Set(s)\<close> copies, which is the identity on values.
\<close>

type_synonym 'a jsset = "'a list"

definition js_has :: "'a jsset \<Rightarrow> 'a \<Rightarrow> bool" where
  "js_has s x = (x \<in> set s)"

definition js_add :: "'a jsset \<Rightarrow> 'a \<Rightarrow> 'a jsset" where
  "js_add s x = (if x \<in> set s then s else s @ [x])"

definition js_delete :: "'a jsset \<Rightarrow> 'a \<Rightarrow> 'a jsset" where
  "js_delete s x = removeAll x s"

definition js_size :: "'a jsset \<Rightarrow> nat" where
  "js_size s = length s"

text \<open>
  The state of the \<open>App\<close> component (its \<open>useState\<close> cells).
\<close>

record app =
  images :: "image_item list"
  editingId :: "jsstring option"
  isSelectionMode :: bool
  selectedIds :: "jsstring jsset"
  showMultiEditor :: bool

definition init :: app where
  "init = \<lparr>images = [], editingId = None, isSelectionMode = False, selectedIds = [],
            showMultiEditor = False\<rparr>"

text \<open>
  The \<open>reader.onload\<close> callback of \<open>handleFileUpload\<close>, once per decoded file:
  \<open>fresh\<close> is the generated id, \<open>result\<close> the data URL (\<open>e.target.result\<close>, skipped
  when falsy).
\<close>

definition handleFileUpload_onload :: "jsstring \<Rightarrow> jsstring \<Rightarrow> jsstring \<Rightarrow> app \<Rightarrow> app" where
  "handleFileUpload_onload fresh fileName result st =
     (if result = [] then st
      else st\<lparr>images := images st @
             [\<lparr>image_id = fresh, originalUrl = result, currentUrl = result, name = fileName,
               versions = [], isProcessing = False\<rparr>]\<rparr>)"

text \<open>
  \<open>handleAddGeneratedImage\<close>: \<open>blendName\<close> is the string
  \<open>`Blend Result ${new Date().toLocaleTimeString()}`\<close>; the \<open>prompt\<close> argument is not
  used by the source.
\<close>

definition handleAddGeneratedImage :: "jsstring \<Rightarrow> jsstring \<Rightarrow> jsstring \<Rightarrow> jsstring \<Rightarrow> app \<Rightarrow> app" where
  "handleAddGeneratedImage newUrl p fresh blendName st =
     (let newImage = \<lparr>image_id = fresh, originalUrl = newUrl, currentUrl = newUrl,
                       name = blendName, versions = [], isProcessing = False\<rparr>
      in st\<lparr>images := newImage # images st, showMultiEditor := False,
             isSelectionMode := False, selectedIds := []\<rparr>)"

definition removeImage :: "jsstring \<Rightarrow> app \<Rightarrow> app" where
  "removeImage i st =
     (let st' = st\<lparr>images := filter (\<lambda>img. image_id img \<noteq> i) (images st)\<rparr>
      in if js_has (selectedIds st) i
         then st'\<lparr>selectedIds := js_delete (selectedIds st) i\<rparr>
         else st')"

definition toggleSelectionMode :: "app \<Rightarrow> app" where
  "toggleSelectionMode st =
     (if isSelectionMode st then st\<lparr>isSelectionMode := False, selectedIds := []\<rparr>
      else st\<lparr>isSelectionMode := True\<rparr>)"

text \<open>
  \<open>toggleSelection\<close> returns the new state and what it passed to \<open>alert\<close>, if anything.
\<close>

definition toggleSelection :: "jsstring \<Rightarrow> app \<Rightarrow> app \<times> jsstring option" where
  "toggleSelection i st =
     (let newSet = selectedIds st
      in if js_has newSet i then (st\<lparr>selectedIds := js_delete newSet i\<rparr>, None)
         else if js_size newSet \<ge> 4
              then (st, Some (ascii ''You can select up to 4 images max.''))
              else (st\<lparr>selectedIds := js_add newSet i\<rparr>, None))"

definition handleStartMultiEdit :: "app \<Rightarrow> app" where
  "handleStartMultiEdit st = st\<lparr>showMultiEditor := True\<rparr>"

definition activeImage :: "app \<Rightarrow> image_item option" where
  "activeImage st = find (\<lambda>img. Some (image_id img) = editingId st) (images st)"

definition selectedImagesList :: "app \<Rightarrow> image_item list" where
  "selectedImagesList st = filter (\<lambda>img. js_has (selectedIds st) (image_id img)) (images st)"

text \<open>The \<open>handleClick\<close> of a gallery card.\<close>

definition handleClick :: "image_item \<Rightarrow> app \<Rightarrow> app" where
  "handleClick img st =
     (if isSelectionMode st then fst (toggleSelection (image_id img) st)
      else st\<lparr>editingId := Some (image_id img)\<rparr>)"

text \<open>
  The events that reach \<open>App\<close>. A card and its delete button exist for each index of
  \<open>images\<close>; an update or a saved blend may arrive from an editor at any time, an update
  with any id (the request was asynchronous and the image may be gone). The conditions
  under which the JSX shows a button are not assumed: every handler may run in every
  state.
\<close>

datatype event =
    FileLoaded jsstring jsstring jsstring
  | ClickCard nat
  | ClickDelete nat
  | ClickSelectImages
  | ClickBlend
  | EditorBack
  | EditorUpdate jsstring jsstring jsstring jsstring nat
  | MultiBack
  | MultiSave jsstring jsstring jsstring jsstring

fun step :: "event \<Rightarrow> app \<Rightarrow> app" where
  "step (FileLoaded fresh fileName result) st = handleFileUpload_onload fresh fileName result st"
| "step (ClickCard k) st = (if k < length (images st) then handleClick (images st ! k) st else st)"
| "step (ClickDelete k) st =
     (if k < length (images st) then removeImage (image_id (images st ! k)) st else st)"
| "step ClickSelectImages st = toggleSelectionMode st"
| "step ClickBlend st = handleStartMultiEdit st"
| "step EditorBack st = st\<lparr>editingId := None\<rparr>"
| "step (EditorUpdate i newUrl p fresh now) st =
     st\<lparr>images := handleUpdateImage i newUrl p fresh now (images st)\<rparr>"
| "step MultiBack st = st\<lparr>showMultiEditor := False\<rparr>"
| "step (MultiSave newUrl p fresh blendName) st = handleAddGeneratedImage newUrl p fresh blendName st"

fun run :: "event list \<Rightarrow> app \<Rightarrow> app" where
  "run [] st = st"
| "run (e # es) st = run es (step e st)"

text \<open>
  The invariant of the data model: the current content is the content of the last
  version, or the original when there is no version.
\<close>

definition version_invariant :: "image_item \<Rightarrow> bool" where
  "version_invariant img \<longleftrightarrow>
     currentUrl img = (if versions img = [] then originalUrl img else url (last (versions img)))"

section \<open>Strings: \<open>trim\<close>\<close>

text \<open>
  \<open>String.prototype.trim\<close> strips the white space and line terminators of ECMAScript
  from both ends: TAB, LF, VT, FF, CR, SPACE, NBSP, the other space separators of
  Unicode (U+1680, U+2000 to U+200A, U+202F, U+205F, U+3000), LS, PS and U+FEFF. All are
  single code units.
\<close>

definition js_whitespace :: "16 word \<Rightarrow> bool" where
  "js_whitespace c \<longleftrightarrow>
     c \<in> {0x0009, 0x000A, 0x000B, 0x000C, 0x000D, 0x0020, 0x00A0, 0x1680,
          0x2028, 0x2029, 0x202F, 0x205F, 0x3000, 0xFEFF}
     \<or> (0x2000 \<le> c \<and> c \<le> 0x200A)"

definition trim :: "jsstring \<Rightarrow> jsstring" where
  "trim s = rev (dropWhile js_whitespace (rev (dropWhile js_whitespace s)))"

section \<open>The editors\<close>

text \<open>
  What a handler of an editor does, in order: the state setters it calls, the dialogs it
  opens, the requests it sends to the external collaborators and the callbacks it makes
  into \<open>App\<close>. A handler is modelled by the list of these actions; the reply of a
  collaborator (resolved with a URL, or rejected) is an argument.
\<close>

datatype js_error = TypeError | Rejected

datatype edit_request = EditRequestParams (imageBase64: jsstring) (request_prompt: jsstring)
  (preserveFaces: bool)

datatype action =
    SetIsProcessing bool
  | SetError "jsstring option"
  | SetPrompt jsstring
  | SetViewingVersionIndex "nat option"
  | SetGeneratedImage "jsstring option"
  | WindowConfirm jsstring
  | EditImageWithGemini edit_request
  | GenerateMultiImageTransform "jsstring list" jsstring
  | OnUpdateImage jsstring jsstring jsstring
  | OnSaveNewImage jsstring jsstring

subsection \<open>Editor\<close>

text \<open>
  \<open>activeUrl\<close> is computed when the component renders. Reading \<open>.url\<close> of
  \<open>image.versions[i]\<close> for an index outside the array is a TypeError.
\<close>

definition activeUrl :: "nat option \<Rightarrow> image_item \<Rightarrow> js_error + jsstring" where
  "activeUrl viewingVersionIndex img =
     (case viewingVersionIndex of
        None \<Rightarrow> Inr (currentUrl img)
      | Some i \<Rightarrow> if i < length (versions img) then Inr (url (versions img ! i))
                  else Inl TypeError)"

text \<open>
  \<open>handleGenerate\<close> of the editor closes over the prompt text, the face flag, the
  rendered \<open>activeUrl\<close> and the image.
\<close>

definition Editor_handleGenerate ::
  "jsstring \<Rightarrow> bool \<Rightarrow> jsstring \<Rightarrow> image_item \<Rightarrow> js_error + jsstring \<Rightarrow> action list" where
  "Editor_handleGenerate p faces sourceImage img reply =
     (if trim p = [] then []
      else [SetIsProcessing True, SetError None,
            EditImageWithGemini (EditRequestParams sourceImage p faces)]
           @ (case reply of
                Inr newImageUrl \<Rightarrow>
                  [OnUpdateImage (image_id img) newImageUrl p, SetViewingVersionIndex None,
                   SetPrompt []]
              | Inl err \<Rightarrow> [SetError (Some (ascii ''Failed to generate image. Please try again.''))])
           @ [SetIsProcessing False])"

definition handleRevertToOriginal :: "image_item \<Rightarrow> action list" where
  "handleRevertToOriginal img =
     [OnUpdateImage (image_id img) (originalUrl img) (ascii ''Revert to Original'')]"

text \<open>
  The state of the editor, and what its actions do to it and to the collection:
  \<open>App\<close> passes \<open>handleUpdateImage\<close> as \<open>onUpdateImage\<close>. Requests and dialogs change
  no state by themselves.
\<close>

record editor =
  ed_prompt :: jsstring
  ed_isProcessing :: bool
  ed_error :: "jsstring option"
  ed_viewingVersionIndex :: "nat option"

fun perform :: "jsstring \<Rightarrow> nat \<Rightarrow> action \<Rightarrow> editor \<times> image_item list \<Rightarrow> editor \<times> image_item list" where
  "perform fresh now (SetIsProcessing b) (ed, imgs) = (ed\<lparr>ed_isProcessing := b\<rparr>, imgs)"
| "perform fresh now (SetError e) (ed, imgs) = (ed\<lparr>ed_error := e\<rparr>, imgs)"
| "perform fresh now (SetPrompt p) (ed, imgs) = (ed\<lparr>ed_prompt := p\<rparr>, imgs)"
| "perform fresh now (SetViewingVersionIndex v) (ed, imgs) = (ed\<lparr>ed_viewingVersionIndex := v\<rparr>, imgs)"
| "perform fresh now (OnUpdateImage i newUrl p) (ed, imgs) =
     (ed, handleUpdateImage i newUrl p fresh now imgs)"
| "perform fresh now other (ed, imgs) = (ed, imgs)"

definition perform_all ::
  "jsstring \<Rightarrow> nat \<Rightarrow> action list \<Rightarrow> editor \<times> image_item list \<Rightarrow> editor \<times> image_item list" where
  "perform_all fresh now acts s = fold (perform fresh now) acts s"

subsection \<open>MultiImageEditor\<close>

text \<open>
  \<open>selectedImages[0]\<close> of an empty array is \<open>undefined\<close>; \<open>slice(1)\<close> of it is empty.
\<close>

definition referenceImage :: "image_item list \<Rightarrow> image_item option" where
  "referenceImage selectedImages = (case selectedImages of [] \<Rightarrow> None | img # rest \<Rightarrow> Some img)"

definition targetImages :: "image_item list \<Rightarrow> image_item list" where
  "targetImages selectedImages = drop 1 selectedImages"





section \<open>The comparison slider (ImageComparison)\<close>

text \<open>
  JavaScript numbers are binary64 floats. A finite number is the real it denotes (the two
  zeros are not told apart); an arithmetic operation returns the rounding \<open>rnd\<close> of the
  exact result, where \<open>rnd\<close> is a parameter. Division by zero gives an infinity or NaN
  as in IEEE 754. Overflow of a finite operation to an infinity is not modelled.
\<close>

datatype jsnum = Num real | PosInf | NegInf | NaN

definition js_div :: "(real \<Rightarrow> real) \<Rightarrow> real \<Rightarrow> real \<Rightarrow> jsnum" where
  "js_div rnd a b =
     (if b = 0 then (if a = 0 then NaN else if 0 < a then PosInf else NegInf)
      else Num (rnd (a / b)))"

definition js_times :: "(real \<Rightarrow> real) \<Rightarrow> jsnum \<Rightarrow> real \<Rightarrow> jsnum" where
  "js_times rnd v k =
     (case v of
        Num a \<Rightarrow> Num (rnd (a * k))
      | PosInf \<Rightarrow> (if k = 0 then NaN else if 0 < k then PosInf else NegInf)
      | NegInf \<Rightarrow> (if k = 0 then NaN else if 0 < k then NegInf else PosInf)
      | NaN \<Rightarrow> NaN)"

text \<open>The fields of the \<open>DOMRect\<close> that \<open>handleDrag\<close> reads.\<close>

record dom_rect =
  rect_left :: real
  rect_width :: real

text \<open>
  \<open>handleDrag\<close> returns what it passes to \<open>setSliderPos\<close>, or nothing when the
  container is not mounted (\<open>containerRef.current\<close> is null).
\<close>

definition handleDrag :: "(real \<Rightarrow> real) \<Rightarrow> real \<Rightarrow> dom_rect option \<Rightarrow> jsnum option" where
  "handleDrag rnd clientX container =
     (case container of
        None \<Rightarrow> None
      | Some rect \<Rightarrow>
          let x = max 0 (min (rnd (clientX - rect_left rect)) (rect_width rect));
              percent = js_times rnd (js_div rnd x (rect_width rect)) 100
          in Some percent)"

text \<open>
  The formula of the specification, \<open>clamp((pointerX - containerLeft) / containerWidth, 0, 1) * 100\<close>,
  in the same arithmetic.
\<close>

definition clamp :: "jsnum \<Rightarrow> real \<Rightarrow> real \<Rightarrow> jsnum" where
  "clamp v lo hi =
     (case v of Num a \<Rightarrow> Num (max lo (min a hi)) | PosInf \<Rightarrow> Num hi | NegInf \<Rightarrow> Num lo
      | NaN \<Rightarrow> NaN)"

definition boundary_percentage :: "(real \<Rightarrow> real) \<Rightarrow> real \<Rightarrow> real \<Rightarrow> real \<Rightarrow> jsnum" where
  "boundary_percentage rnd pointerX containerLeft containerWidth =
     js_times rnd (clamp (js_div rnd (rnd (pointerX - containerLeft)) containerWidth) 0 1) 100"

definition within_0_100 :: "jsnum \<Rightarrow> bool" where
  "within_0_100 v = (case v of Num a \<Rightarrow> 0 \<le> a \<and> a \<le> 100 | PosInf \<Rightarrow> False
                     | NegInf \<Rightarrow> False | NaN \<Rightarrow> False)"

text \<open>
  What is used of the rounding: it is monotone, and 0, 1 and 100 are representable.
  Round-to-nearest of binary64 is such a function; so is \<open>nearest_1024th\<close>, rounding to
  the nearest multiple of \<open>2\<^sup>-\<^sup>1\<^sup>0\<close>, which the examples use.
\<close>

definition rounding :: "(real \<Rightarrow> real) \<Rightarrow> bool" where
  "rounding rnd \<longleftrightarrow> (\<forall>a b. a \<le> b \<longrightarrow> rnd a \<le> rnd b) \<and> rnd 0 = 0 \<and> rnd 1 = 1 \<and> rnd 100 = 100"

definition nearest_1024th :: "real \<Rightarrow> real" where
  "nearest_1024th a = real_of_int \<lfloor>a * 1024 + 1 / 2\<rfloor> / 1024"

section \<open>Invariants of the selection and example data\<close>

text \<open>
  The selection holds at most four ids, each once, and only ids of images of the
  collection.
\<close>

definition selection_ok :: "app \<Rightarrow> bool" where
  "selection_ok st \<longleftrightarrow>
     js_size (selectedIds st) \<le> 4 \<and> distinct (selectedIds st)
     \<and> set (selectedIds st) \<subseteq> image_id ` set (images st)"

text \<open>A freshly uploaded image, and a gallery of five with three of them selected.\<close>

definition uploaded :: "string \<Rightarrow> string \<Rightarrow> image_item" where
  "uploaded i content =
     \<lparr>image_id = ascii i, originalUrl = ascii content, currentUrl = ascii content,
      name = ascii i, versions = [], isProcessing = False\<rparr>"

definition gallery :: app where
  "gallery =
     \<lparr>images = [uploaded ''img1'' ''imgA'', uploaded ''img2'' ''imgB'', uploaded ''img3'' ''imgC'',
                uploaded ''img4'' ''imgD'', uploaded ''img5'' ''imgE''],
      editingId = None, isSelectionMode = True,
      selectedIds = [ascii ''img1'', ascii ''img3'', ascii ''img5''],
      showMultiEditor = False\<rparr>"

definition idle_editor :: editor where
  "idle_editor = \<lparr>ed_prompt = [], ed_isProcessing = False, ed_error = None,
                   ed_viewingVersionIndex = None\<rparr>"

text \<open>The same gallery with four images selected, and an image after one edit.\<close>

definition four_selected :: app where
  "four_selected = gallery\<lparr>selectedIds := [ascii ''img1'', ascii ''img2'', ascii ''img3'', ascii ''img4'']\<rparr>"

definition edited_once :: image_item where
  "edited_once = (uploaded ''img1'' ''imgA'')
     \<lparr>currentUrl := ascii ''imgB'',
      versions := [\<lparr>version_id = ascii ''v1'', url = ascii ''imgB'',
                    prompt = ascii ''make it sketch'', timestamp = 7\<rparr>]\<rparr>"


text \<open>Two uploads followed by one edit of the first image.\<close>

definition two_uploads_one_edit :: "event list" where
  "two_uploads_one_edit =
     [FileLoaded (ascii ''img1'') (ascii ''a.png'') (ascii ''imgA''),
      FileLoaded (ascii ''img2'') (ascii ''b.png'') (ascii ''imgB''),
      EditorUpdate (ascii ''img1'') (ascii ''imgB'') (ascii ''make it sketch'') (ascii ''v1'') 7]"

section \<open>Auxiliary lemmas\<close>

subsection \<open>Versions\<close>

lemma handleUpdateImage_member:
  assumes "img \<in> set (handleUpdateImage i newUrl p fresh now prev)"
  obtains old where "old \<in> set prev" and "image_id old = i"
      and "img = old\<lparr>currentUrl := newUrl,
             versions := versions old @ [\<lparr>version_id = fresh, url = newUrl, prompt = p, timestamp = now\<rparr>]\<rparr>"
  | "img \<in> set prev" and "image_id img \<noteq> i"
proof -
  from assms obtain old where old: "old \<in> set prev"
    and img: "img = (if image_id old = i
        then old\<lparr>currentUrl := newUrl,
             versions := versions old @ [\<lparr>version_id = fresh, url = newUrl, prompt = p, timestamp = now\<rparr>]\<rparr>
        else old)"
    unfolding handleUpdateImage_def Let_def set_map by (elim imageE)
  show thesis
  proof (cases "image_id old = i")
    case True
    with old img that(1) show thesis by simp
  next
    case False
    with old img that(2) show thesis by simp
  qed
qed

lemma handleUpdateImage_updated:
  assumes "img \<in> set (handleUpdateImage i newUrl p fresh now prev)" and "image_id img = i"
  shows "versions img \<noteq> [] \<and> currentUrl img = url (last (versions img)) \<and> currentUrl img = newUrl"
  using assms(1)
proof (cases rule: handleUpdateImage_member)
  case (1 old)
  then show ?thesis by simp
next
  case 2
  with assms(2) show ?thesis by simp
qed

lemma handleUpdateImage_keeps_invariant:
  assumes "\<forall>img \<in> set prev. version_invariant img"
  shows "\<forall>img \<in> set (handleUpdateImage i newUrl p fresh now prev). version_invariant img"
proof
  fix img assume "img \<in> set (handleUpdateImage i newUrl p fresh now prev)"
  then show "version_invariant img"
  proof (cases rule: handleUpdateImage_member)
    case (1 old)
    then show ?thesis by (simp add: version_invariant_def)
  next
    case 2
    with assms show ?thesis by simp
  qed
qed


lemma run_invariant:
  assumes "P st" and "\<And>e s. P s \<Longrightarrow> P (step e s)"
  shows "P (run evs st)"
  using assms(1) by (induction evs arbitrary: st) (simp_all add: assms(2))

lemma toggleSelection_images: "images (fst (toggleSelection i st)) = images st"
  by (simp add: toggleSelection_def Let_def)

lemma step_keeps_versions:
  assumes "\<forall>img \<in> set (images s). version_invariant img"
  shows "\<forall>img \<in> set (images (step e s)). version_invariant img"
proof (cases e)
  case (EditorUpdate i newUrl p fresh now)
  then show ?thesis using handleUpdateImage_keeps_invariant [OF assms] by simp
next
  case (FileLoaded fresh fileName result)
  then show ?thesis using assms
    by (simp add: handleFileUpload_onload_def version_invariant_def)
next
  case (MultiSave newUrl p fresh blendName)
  then show ?thesis using assms
    by (simp add: handleAddGeneratedImage_def version_invariant_def Let_def)
next
  case (ClickCard k)
  then show ?thesis using assms
    by (simp add: handleClick_def toggleSelection_images)
next
  case (ClickDelete k)
  then show ?thesis using assms
    by (simp add: removeImage_def Let_def)
next
  case ClickSelectImages
  then show ?thesis using assms by (simp add: toggleSelectionMode_def)
next
  case ClickBlend
  then show ?thesis using assms by (simp add: handleStartMultiEdit_def)
next
  case EditorBack
  then show ?thesis using assms by simp
next
  case MultiBack
  then show ?thesis using assms by simp
qed

lemma reachable_versions: "\<forall>img \<in> set (images (run evs init)). version_invariant img"
  by (rule run_invariant [where P = "\<lambda>s. \<forall>img \<in> set (images s). version_invariant img"])
     (simp add: init_def, rule step_keeps_versions)

subsection \<open>Selection\<close>

lemma toggleSelection_selected:
  "js_has (selectedIds st) i \<Longrightarrow>
     toggleSelection i st = (st\<lparr>selectedIds := js_delete (selectedIds st) i\<rparr>, None)"
  by (simp add: toggleSelection_def Let_def)

lemma toggleSelection_full:
  "\<not> js_has (selectedIds st) i \<Longrightarrow> 4 \<le> js_size (selectedIds st) \<Longrightarrow>
     toggleSelection i st = (st, Some (ascii ''You can select up to 4 images max.''))"
  by (simp add: toggleSelection_def Let_def)

lemma toggleSelection_room:
  "\<not> js_has (selectedIds st) i \<Longrightarrow> js_size (selectedIds st) < 4 \<Longrightarrow>
     toggleSelection i st = (st\<lparr>selectedIds := selectedIds st @ [i]\<rparr>, None)"
  by (simp add: toggleSelection_def Let_def js_add_def js_has_def)

lemma length_js_delete: "js_size (js_delete s x) \<le> js_size s"
  by (simp add: js_size_def js_delete_def removeAll_filter_not_eq)

lemma toggleSelection_keeps_ok:
  assumes "selection_ok st" and "i \<in> image_id ` set (images st)"
  shows "selection_ok (fst (toggleSelection i st))"
proof (cases "js_has (selectedIds st) i")
  case True
  have "js_size (js_delete (selectedIds st) i) \<le> 4"
    using length_js_delete [of "selectedIds st" i] assms(1) by (simp add: selection_ok_def)
  moreover have "distinct (js_delete (selectedIds st) i)"
    using assms(1) by (simp add: selection_ok_def js_delete_def distinct_removeAll)
  moreover have "set (js_delete (selectedIds st) i) \<subseteq> image_id ` set (images st)"
    using assms(1) by (auto simp: selection_ok_def js_delete_def)
  ultimately show ?thesis
    by (simp add: toggleSelection_selected [OF True] selection_ok_def)
next
  case False
  show ?thesis
  proof (cases "4 \<le> js_size (selectedIds st)")
    case True
    with False assms(1) show ?thesis by (simp add: toggleSelection_full)
  next
    case room: False
    then have lt: "js_size (selectedIds st) < 4" by simp
    have "js_size (selectedIds st @ [i]) \<le> 4" using lt by (simp add: js_size_def)
    moreover have "distinct (selectedIds st @ [i])"
      using assms(1) False by (simp add: selection_ok_def js_has_def)
    moreover have "set (selectedIds st @ [i]) \<subseteq> image_id ` set (images st)"
      using assms by (simp add: selection_ok_def)
    ultimately show ?thesis
      by (simp add: toggleSelection_room [OF False lt] selection_ok_def)
  qed
qed

lemma removeImage_images: "images (removeImage i st) = filter (\<lambda>img. image_id img \<noteq> i) (images st)"
  by (simp add: removeImage_def Let_def)

lemma removeImage_selectedIds: "selectedIds (removeImage i st) = removeAll i (selectedIds st)"
  by (simp add: removeImage_def Let_def js_has_def js_delete_def)

lemma removeImage_subset:
  assumes "set (selectedIds st) \<subseteq> image_id ` set (images st)"
  shows "set (selectedIds (removeImage i st)) \<subseteq> image_id ` set (images (removeImage i st))"
proof
  fix x assume "x \<in> set (selectedIds (removeImage i st))"
  then have x: "x \<in> set (selectedIds st)" and ne: "x \<noteq> i"
    by (simp_all add: removeImage_selectedIds)
  from x assms obtain img where "img \<in> set (images st)" and "x = image_id img" by blast
  with ne have "img \<in> set (images (removeImage i st))" by (simp add: removeImage_images)
  with \<open>x = image_id img\<close> show "x \<in> image_id ` set (images (removeImage i st))" by blast
qed

lemma removeImage_keeps_ok:
  assumes "selection_ok st"
  shows "selection_ok (removeImage i st)"
proof -
  have "js_size (selectedIds (removeImage i st)) \<le> js_size (selectedIds st)"
    by (simp add: removeImage_selectedIds js_size_def removeAll_filter_not_eq)
  moreover have "js_size (selectedIds st) \<le> 4"
    using assms by (simp add: selection_ok_def)
  ultimately have "js_size (selectedIds (removeImage i st)) \<le> 4"
    by (rule le_trans)
  moreover have "distinct (selectedIds (removeImage i st))"
    using assms by (simp add: selection_ok_def removeImage_selectedIds distinct_removeAll)
  moreover have "set (selectedIds (removeImage i st)) \<subseteq> image_id ` set (images (removeImage i st))"
    using assms removeImage_subset by (simp add: selection_ok_def)
  ultimately show ?thesis by (simp add: selection_ok_def)
qed

lemma handleUpdateImage_ids: "map image_id (handleUpdateImage i newUrl p fresh now prev) = map image_id prev"
  by (simp add: handleUpdateImage_def Let_def)

lemma handleUpdateImage_id_set:
  "image_id ` set (handleUpdateImage i newUrl p fresh now prev) = image_id ` set prev"
  using handleUpdateImage_ids [of i newUrl p fresh now prev] by (metis set_map)

lemma step_keeps_selection:
  assumes "selection_ok s"
  shows "selection_ok (step e s)"
proof (cases e)
  case (EditorUpdate i newUrl p fresh now)
  then show ?thesis using assms by (simp add: selection_ok_def handleUpdateImage_id_set)
next
  case (FileLoaded fresh fileName result)
  then show ?thesis using assms
    by (auto simp: handleFileUpload_onload_def selection_ok_def)
next
  case (MultiSave newUrl p fresh blendName)
  then show ?thesis
    by (simp add: handleAddGeneratedImage_def selection_ok_def Let_def js_size_def)
next
  case (ClickCard k)
  show ?thesis
  proof (cases "k < length (images s) \<and> isSelectionMode s")
    case True
    then have "image_id (images s ! k) \<in> image_id ` set (images s)" by simp
    from toggleSelection_keeps_ok [OF assms this] True ClickCard show ?thesis
      by (simp add: handleClick_def)
  next
    case False
    with ClickCard assms show ?thesis by (auto simp: handleClick_def selection_ok_def)
  qed
next
  case (ClickDelete k)
  then show ?thesis using assms removeImage_keeps_ok by simp
next
  case ClickSelectImages
  then show ?thesis using assms by (simp add: toggleSelectionMode_def selection_ok_def js_size_def)
next
  case ClickBlend
  then show ?thesis using assms by (simp add: handleStartMultiEdit_def selection_ok_def)
next
  case EditorBack
  then show ?thesis using assms by (simp add: selection_ok_def)
next
  case MultiBack
  then show ?thesis using assms by (simp add: selection_ok_def)
qed

lemma reachable_selection_ok: "selection_ok (run evs init)"
  by (rule run_invariant [where P = selection_ok])
     (simp add: init_def selection_ok_def js_size_def, rule step_keeps_selection)

subsection \<open>Updates by index, and the revert\<close>

lemma handleUpdateImage_length: "length (handleUpdateImage i newUrl p fresh now prev) = length prev"
  by (simp add: handleUpdateImage_def)

lemma handleUpdateImage_nth:
  "k < length prev \<Longrightarrow>
     handleUpdateImage i newUrl p fresh now prev ! k =
       (if image_id (prev ! k) = i
        then (prev ! k)\<lparr>currentUrl := newUrl,
               versions := versions (prev ! k) @
                 [\<lparr>version_id = fresh, url = newUrl, prompt = p, timestamp = now\<rparr>]\<rparr>
        else prev ! k)"
  by (simp add: handleUpdateImage_def Let_def)

lemma perform_all_revert:
  "perform_all fresh now (handleRevertToOriginal img) (ed, imgs) =
     (ed, handleUpdateImage (image_id img) (originalUrl img) (ascii ''Revert to Original'') fresh now imgs)"
  by (simp add: perform_all_def handleRevertToOriginal_def)

lemma run_append: "run (es @ fs) st = run fs (run es st)"
  by (induction es arbitrary: st) simp_all

subsection \<open>Blank prompts\<close>

lemma trim_empty_iff: "trim s = [] \<longleftrightarrow> (\<forall>c \<in> set s. js_whitespace c)"
proof
  assume "trim s = []"
  then have "dropWhile js_whitespace (rev (dropWhile js_whitespace s)) = []"
    by (simp add: trim_def)
  then have "\<forall>c \<in> set (rev (dropWhile js_whitespace s)). js_whitespace c"
    by simp
  then have all: "\<forall>c \<in> set (dropWhile js_whitespace s). js_whitespace c" by simp
  have "dropWhile js_whitespace s = []"
  proof (cases "dropWhile js_whitespace s")
    case Nil
    then show ?thesis .
  next
    case (Cons c cs)
    then have "\<not> js_whitespace c" using hd_dropWhile [of js_whitespace s] by simp
    moreover from Cons all have "js_whitespace c" by simp
    ultimately show ?thesis by simp
  qed
  then show "\<forall>c \<in> set s. js_whitespace c" by simp
next
  assume "\<forall>c \<in> set s. js_whitespace c"
  then have "dropWhile js_whitespace s = []" by simp
  then show "trim s = []" by (simp only: trim_def rev.simps dropWhile.simps)
qed


lemma Editor_handleGenerate_nonblank_example:
  "Editor_handleGenerate (ascii ''add glow'') True (ascii ''imgA'') (uploaded ''img1'' ''imgA'')
      (Inr (ascii ''imgB''))
   = [SetIsProcessing True, SetError None,
      EditImageWithGemini (EditRequestParams (ascii ''imgA'') (ascii ''add glow'') True),
      OnUpdateImage (ascii ''img1'') (ascii ''imgB'') (ascii ''add glow''),
      SetViewingVersionIndex None, SetPrompt [], SetIsProcessing False]"
  by (simp add: Editor_handleGenerate_def trim_def js_whitespace_def ascii_def uploaded_def)

subsection \<open>Rounded arithmetic of the slider\<close>

lemma rounding_nearest_1024th: "rounding nearest_1024th"
  unfolding rounding_def nearest_1024th_def
  by (auto intro!: divide_right_mono floor_mono)

lemma rounded_ratio:
  assumes r: "rounding rnd" and w: "0 < w"
  shows "rnd (max 0 (min d w) / w) = max 0 (min (rnd (d / w)) 1)"
proof -
  from r have mono: "\<And>a b. a \<le> b \<Longrightarrow> rnd a \<le> rnd b" and r0: "rnd 0 = 0" and r1: "rnd 1 = 1"
    by (simp_all add: rounding_def)
  consider (left) "d < 0" | (inside) "0 \<le> d" "d \<le> w" | (right) "w < d" by linarith
  then show ?thesis
  proof cases
    case left
    with w have "d / w \<le> 0" by (simp add: divide_le_0_iff)
    then have "rnd (d / w) \<le> 0" using mono [of "d / w" 0] r0 by simp
    moreover from left w have "max 0 (min d w) = 0" by simp
    ultimately show ?thesis using r0 by simp
  next
    case inside
    with w have "0 \<le> d / w" and "d / w \<le> 1" by simp_all
    then have "0 \<le> rnd (d / w)" and "rnd (d / w) \<le> 1"
      using mono [of 0 "d / w"] mono [of "d / w" 1] r0 r1 by simp_all
    moreover from inside have "max 0 (min d w) = d" by simp
    ultimately show ?thesis by simp
  next
    case right
    with w have "1 \<le> d / w" by simp
    then have "1 \<le> rnd (d / w)" using mono [of 1 "d / w"] r1 by simp
    moreover from right w have "max 0 (min d w) = w" by simp
    ultimately show ?thesis using w r1 by simp
  qed
qed

lemma rounded_percent_range:
  assumes r: "rounding rnd" and "0 \<le> y" and "y \<le> 1"
  shows "0 \<le> rnd (y * 100) \<and> rnd (y * 100) \<le> 100"
proof -
  from r have mono: "\<And>a b. a \<le> b \<Longrightarrow> rnd a \<le> rnd b" and r0: "rnd 0 = 0" and r100: "rnd 100 = 100"
    by (simp_all add: rounding_def)
  from assms(2,3) have "0 \<le> y * 100" and "y * 100 \<le> 100" by simp_all
  then show ?thesis using mono [of 0 "y * 100"] mono [of "y * 100" 100] r0 r100 by simp
qed

section \<open>Claims\<close>

text \<open>
  C1. \<open>handleUpdateImage\<close> keeps the collection's length and ids. For every position
  of the collection whose image carries the id, the image at that position afterwards has
  the old version list with the new entry appended (so it is non-empty), the new content
  as current content, which is the content of the last version, and its original
  unchanged; an image with another id is left as it was; an image that satisfied the
  invariant (current content = content of the last version, or the original when there
  is no version) satisfies it afterwards. An update event of the application is this
  function applied to the images of the state, and the invariant holds for every image
  of every state the application reaches. An image just added by a file upload or by
  \<open>handleAddGeneratedImage\<close> has an empty version list and current = original.
\<close>

theorem version_invariant_maintained:
  "length (handleUpdateImage i newUrl p fresh now prev) = length prev
   \<and> map image_id (handleUpdateImage i newUrl p fresh now prev) = map image_id prev
   \<and> (\<forall>k < length prev. image_id (prev ! k) = i \<longrightarrow>
        versions (handleUpdateImage i newUrl p fresh now prev ! k)
          = versions (prev ! k) @ [\<lparr>version_id = fresh, url = newUrl, prompt = p, timestamp = now\<rparr>]
        \<and> versions (handleUpdateImage i newUrl p fresh now prev ! k) \<noteq> []
        \<and> currentUrl (handleUpdateImage i newUrl p fresh now prev ! k) = newUrl
        \<and> currentUrl (handleUpdateImage i newUrl p fresh now prev ! k)
            = url (last (versions (handleUpdateImage i newUrl p fresh now prev ! k)))
        \<and> originalUrl (handleUpdateImage i newUrl p fresh now prev ! k) = originalUrl (prev ! k)
        \<and> version_invariant (handleUpdateImage i newUrl p fresh now prev ! k))
   \<and> (\<forall>k < length prev. image_id (prev ! k) \<noteq> i \<longrightarrow>
        handleUpdateImage i newUrl p fresh now prev ! k = prev ! k)
   \<and> (\<forall>k < length prev. version_invariant (prev ! k) \<longrightarrow>
        version_invariant (handleUpdateImage i newUrl p fresh now prev ! k))
   \<and> (\<forall>img \<in> set (handleUpdateImage i newUrl p fresh now prev).
        image_id img = i \<longrightarrow> versions img \<noteq> [] \<and> currentUrl img = url (last (versions img)))
   \<and> ((\<forall>img \<in> set prev. version_invariant img) \<longrightarrow>
        (\<forall>img \<in> set (handleUpdateImage i newUrl p fresh now prev). version_invariant img))
   \<and> images (run (evs @ [EditorUpdate i newUrl p fresh now]) init)
        = handleUpdateImage i newUrl p fresh now (images (run evs init))
   \<and> (\<forall>k < length (images (run evs init)). version_invariant (images (run evs init) ! k))
   \<and> (\<forall>img \<in> set (images (run evs init)). version_invariant img)
   \<and> (result \<noteq> [] \<longrightarrow>
        (let new = last (images (handleFileUpload_onload fresh' fileName result st))
         in images (handleFileUpload_onload fresh' fileName result st) = images st @ [new]
            \<and> versions new = [] \<and> currentUrl new = originalUrl new \<and> version_invariant new))
   \<and> (let new = hd (images (handleAddGeneratedImage genUrl p' fresh' blendName st))
       in images (handleAddGeneratedImage genUrl p' fresh' blendName st) = new # images st
          \<and> versions new = [] \<and> currentUrl new = originalUrl new \<and> version_invariant new)"
proof (intro conjI)
  show "length (handleUpdateImage i newUrl p fresh now prev) = length prev"
    by (rule handleUpdateImage_length)
  show "map image_id (handleUpdateImage i newUrl p fresh now prev) = map image_id prev"
    by (rule handleUpdateImage_ids)
  show "\<forall>k < length prev. image_id (prev ! k) = i \<longrightarrow>
        versions (handleUpdateImage i newUrl p fresh now prev ! k)
          = versions (prev ! k) @ [\<lparr>version_id = fresh, url = newUrl, prompt = p, timestamp = now\<rparr>]
        \<and> versions (handleUpdateImage i newUrl p fresh now prev ! k) \<noteq> []
        \<and> currentUrl (handleUpdateImage i newUrl p fresh now prev ! k) = newUrl
        \<and> currentUrl (handleUpdateImage i newUrl p fresh now prev ! k)
            = url (last (versions (handleUpdateImage i newUrl p fresh now prev ! k)))
        \<and> originalUrl (handleUpdateImage i newUrl p fresh now prev ! k) = originalUrl (prev ! k)
        \<and> version_invariant (handleUpdateImage i newUrl p fresh now prev ! k)"
    by (simp add: handleUpdateImage_nth version_invariant_def)
  show "\<forall>k < length prev. image_id (prev ! k) \<noteq> i \<longrightarrow>
        handleUpdateImage i newUrl p fresh now prev ! k = prev ! k"
    by (simp add: handleUpdateImage_nth)
  show "\<forall>k < length prev. version_invariant (prev ! k) \<longrightarrow>
        version_invariant (handleUpdateImage i newUrl p fresh now prev ! k)"
    by (simp add: handleUpdateImage_nth version_invariant_def)
  show "\<forall>img \<in> set (handleUpdateImage i newUrl p fresh now prev).
      image_id img = i \<longrightarrow> versions img \<noteq> [] \<and> currentUrl img = url (last (versions img))"
    using handleUpdateImage_updated by blast
  show "(\<forall>img \<in> set prev. version_invariant img) \<longrightarrow>
        (\<forall>img \<in> set (handleUpdateImage i newUrl p fresh now prev). version_invariant img)"
    using handleUpdateImage_keeps_invariant by blast
  show "images (run (evs @ [EditorUpdate i newUrl p fresh now]) init)
        = handleUpdateImage i newUrl p fresh now (images (run evs init))"
    by (simp add: run_append)
  show "\<forall>img \<in> set (images (run evs init)). version_invariant img"
    by (rule reachable_versions)
  then show "\<forall>k < length (images (run evs init)). version_invariant (images (run evs init) ! k)"
    by simp
  show "result \<noteq> [] \<longrightarrow>
        (let new = last (images (handleFileUpload_onload fresh' fileName result st))
         in images (handleFileUpload_onload fresh' fileName result st) = images st @ [new]
            \<and> versions new = [] \<and> currentUrl new = originalUrl new \<and> version_invariant new)"
    by (simp add: handleFileUpload_onload_def version_invariant_def)
  show "let new = hd (images (handleAddGeneratedImage genUrl p' fresh' blendName st))
       in images (handleAddGeneratedImage genUrl p' fresh' blendName st) = new # images st
          \<and> versions new = [] \<and> currentUrl new = originalUrl new \<and> version_invariant new"
    by (simp add: handleAddGeneratedImage_def version_invariant_def Let_def)
qed

theorem version_invariant_maintained_witness:
  "version_invariant edited_once
   \<and> version_invariant (uploaded ''img2'' ''imgB'')
   \<and> image_id ([edited_once, uploaded ''img2'' ''imgB''] ! 0) = ascii ''img1''
   \<and> image_id ([edited_once, uploaded ''img2'' ''imgB''] ! 1) \<noteq> ascii ''img1''
   \<and> length (handleUpdateImage (ascii ''img1'') (ascii ''imgC'') (ascii ''add glow'') (ascii ''v2'') 9
        [edited_once, uploaded ''img2'' ''imgB'']) = 2
   \<and> currentUrl (handleUpdateImage (ascii ''img1'') (ascii ''imgC'') (ascii ''add glow'') (ascii ''v2'') 9
        [edited_once, uploaded ''img2'' ''imgB''] ! 0) = ascii ''imgC''
   \<and> map url (versions (handleUpdateImage (ascii ''img1'') (ascii ''imgC'') (ascii ''add glow'')
        (ascii ''v2'') 9 [edited_once, uploaded ''img2'' ''imgB''] ! 0)) = [ascii ''imgB'', ascii ''imgC'']
   \<and> version_invariant (handleUpdateImage (ascii ''img1'') (ascii ''imgC'') (ascii ''add glow'')
        (ascii ''v2'') 9 [edited_once, uploaded ''img2'' ''imgB''] ! 0)
   \<and> handleUpdateImage (ascii ''img1'') (ascii ''imgC'') (ascii ''add glow'') (ascii ''v2'') 9
        [edited_once, uploaded ''img2'' ''imgB''] ! 1 = uploaded ''img2'' ''imgB''
   \<and> ascii ''imgA'' \<noteq> []
   \<and> map currentUrl (images (run two_uploads_one_edit init)) = [ascii ''imgB'', ascii ''imgB'']
   \<and> map currentUrl (images (run (two_uploads_one_edit
        @ [EditorUpdate (ascii ''img1'') (ascii ''imgC'') (ascii ''add glow'') (ascii ''v2'') 9]) init))
       = [ascii ''imgC'', ascii ''imgB'']
   \<and> map (map url) (map versions (images (run (two_uploads_one_edit
        @ [EditorUpdate (ascii ''img1'') (ascii ''imgC'') (ascii ''add glow'') (ascii ''v2'') 9]) init)))
       = [[ascii ''imgB'', ascii ''imgC''], []]"
  using version_invariant_maintained [where i = "ascii ''img1''" and newUrl = "ascii ''imgC''" and p = "ascii ''add glow''"
      and fresh = "ascii ''v2''" and now = 9 and prev = "[edited_once, uploaded ''img2'' ''imgB'']"
      and evs = two_uploads_one_edit and result = "ascii ''imgA''" and fresh' = "ascii ''img1''"
      and fileName = "ascii ''a.png''" and st = init and genUrl = "ascii ''imgR''"
      and p' = "ascii ''p''" and blendName = "ascii ''Blend''"]
  by (simp add: handleUpdateImage_def uploaded_def edited_once_def version_invariant_def init_def
      handleFileUpload_onload_def two_uploads_one_edit_def ascii_def)

text \<open>
  C2, as the claim states it, fails: \<open>handleRevertToOriginal\<close> calls \<open>onUpdateImage\<close>,
  which is \<open>handleUpdateImage\<close>, so the revert of a freshly uploaded image leaves a
  version list of length one where it was empty.
\<close>

theorem revert_counterexample:
  "currentUrl (hd (snd (perform_all (ascii ''v2'') 9
       (handleRevertToOriginal (uploaded ''img1'' ''imgA''))
       (idle_editor, [uploaded ''img1'' ''imgA'']))))
     = originalUrl (uploaded ''img1'' ''imgA'')
   \<and> length (versions (hd (snd (perform_all (ascii ''v2'') 9
       (handleRevertToOriginal (uploaded ''img1'' ''imgA''))
       (idle_editor, [uploaded ''img1'' ''imgA''])))))
     \<noteq> length (versions (uploaded ''img1'' ''imgA''))
   \<and> versions (hd (snd (perform_all (ascii ''v2'') 9
       (handleRevertToOriginal (uploaded ''img1'' ''imgA''))
       (idle_editor, [uploaded ''img1'' ''imgA'']))))
     = [\<lparr>version_id = ascii ''v2'', url = ascii ''imgA'', prompt = ascii ''Revert to Original'',
         timestamp = 9\<rparr>]"
  by (simp add: perform_all_revert handleUpdateImage_def uploaded_def)

text \<open>
  C2, amended. The revert sets the current content of the image to the original content
  and appends one version entry to its list, with the original content and the prompt
  "Revert to Original": the list is one longer than before, no older entry is changed,
  the editor state and the images with another id are untouched, and the invariant of
  the data model holds for the image after the revert.
\<close>

theorem revert_appends_version:
  "k < length imgs \<and> image_id (imgs ! k) = image_id img \<longrightarrow>
     (let after = snd (perform_all fresh now (handleRevertToOriginal img) (ed, imgs))
      in fst (perform_all fresh now (handleRevertToOriginal img) (ed, imgs)) = ed
         \<and> length after = length imgs
         \<and> currentUrl (after ! k) = originalUrl img
         \<and> originalUrl (after ! k) = originalUrl (imgs ! k)
         \<and> versions (after ! k) = versions (imgs ! k) @
              [\<lparr>version_id = fresh, url = originalUrl img, prompt = ascii ''Revert to Original'',
                timestamp = now\<rparr>]
         \<and> length (versions (after ! k)) = Suc (length (versions (imgs ! k)))
         \<and> version_invariant (after ! k)
         \<and> (\<forall>j < length imgs. image_id (imgs ! j) \<noteq> image_id img \<longrightarrow> after ! j = imgs ! j))"
  by (simp add: perform_all_revert handleUpdateImage_length handleUpdateImage_nth Let_def
      version_invariant_def)

theorem revert_appends_version_witness:
  "(0::nat) < length [edited_once, uploaded ''img2'' ''imgB'']
   \<and> currentUrl (snd (perform_all (ascii ''v2'') 9 (handleRevertToOriginal edited_once)
        (idle_editor, [edited_once, uploaded ''img2'' ''imgB''])) ! 0) = ascii ''imgA''
   \<and> map prompt (versions (snd (perform_all (ascii ''v2'') 9 (handleRevertToOriginal edited_once)
        (idle_editor, [edited_once, uploaded ''img2'' ''imgB''])) ! 0))
        = [ascii ''make it sketch'', ascii ''Revert to Original'']
   \<and> snd (perform_all (ascii ''v2'') 9 (handleRevertToOriginal edited_once)
        (idle_editor, [edited_once, uploaded ''img2'' ''imgB''])) ! 1 = uploaded ''img2'' ''imgB''"
  using revert_appends_version [of 0 "[edited_once, uploaded ''img2'' ''imgB'']" edited_once
      "ascii ''v2''" 9 idle_editor]
  by (simp add: Let_def edited_once_def uploaded_def ascii_def)

text \<open>
  C3. For a selection of at most four ids: toggling a selected id removes it; toggling an
  unselected id when the selection has four members leaves the state unchanged and alerts
  "You can select up to 4 images max."; otherwise the id is added (at the end), without
  alert. The size stays within four, and in every state the application reaches the
  selection has at most four members, each once.
\<close>

theorem toggleSelection_bounded:
  "(js_size (selectedIds st) \<le> 4 \<longrightarrow>
      (js_has (selectedIds st) i \<longrightarrow>
         selectedIds (fst (toggleSelection i st)) = js_delete (selectedIds st) i
         \<and> \<not> js_has (selectedIds (fst (toggleSelection i st))) i
         \<and> snd (toggleSelection i st) = None)
      \<and> (\<not> js_has (selectedIds st) i \<and> js_size (selectedIds st) = 4 \<longrightarrow>
         fst (toggleSelection i st) = st
         \<and> snd (toggleSelection i st) = Some (ascii ''You can select up to 4 images max.''))
      \<and> (\<not> js_has (selectedIds st) i \<and> js_size (selectedIds st) \<noteq> 4 \<longrightarrow>
         selectedIds (fst (toggleSelection i st)) = selectedIds st @ [i]
         \<and> js_has (selectedIds (fst (toggleSelection i st))) i
         \<and> snd (toggleSelection i st) = None)
      \<and> images (fst (toggleSelection i st)) = images st
      \<and> js_size (selectedIds (fst (toggleSelection i st))) \<le> 4)
   \<and> js_size (selectedIds (run evs init)) \<le> 4
   \<and> distinct (selectedIds (run evs init))"
proof (intro conjI impI)
  assume "js_has (selectedIds st) i"
  then show "selectedIds (fst (toggleSelection i st)) = js_delete (selectedIds st) i"
    and "\<not> js_has (selectedIds (fst (toggleSelection i st))) i"
    and "snd (toggleSelection i st) = None"
    by (simp_all add: toggleSelection_selected js_has_def js_delete_def)
next
  assume "\<not> js_has (selectedIds st) i \<and> js_size (selectedIds st) = 4"
  then show "fst (toggleSelection i st) = st"
    and "snd (toggleSelection i st) = Some (ascii ''You can select up to 4 images max.'')"
    by (simp_all add: toggleSelection_full)
next
  assume le: "js_size (selectedIds st) \<le> 4"
    and "\<not> js_has (selectedIds st) i \<and> js_size (selectedIds st) \<noteq> 4"
  then have no: "\<not> js_has (selectedIds st) i" and lt: "js_size (selectedIds st) < 4" by simp_all
  show "selectedIds (fst (toggleSelection i st)) = selectedIds st @ [i]"
    and "js_has (selectedIds (fst (toggleSelection i st))) i"
    and "snd (toggleSelection i st) = None"
    by (simp_all add: toggleSelection_room [OF no lt] js_has_def)
next
  show "images (fst (toggleSelection i st)) = images st" by (rule toggleSelection_images)
next
  assume le: "js_size (selectedIds st) \<le> 4"
  show "js_size (selectedIds (fst (toggleSelection i st))) \<le> 4"
  proof (cases "js_has (selectedIds st) i")
    case True
    with le length_js_delete [of "selectedIds st" i] show ?thesis
      by (simp add: toggleSelection_selected)
  next
    case False
    show ?thesis
    proof (cases "4 \<le> js_size (selectedIds st)")
      case True
      with False le show ?thesis by (simp add: toggleSelection_full)
    next
      case room: False
      then have lt: "js_size (selectedIds st) < 4" by simp
      then show ?thesis by (simp add: toggleSelection_room [OF False lt] js_size_def)
    qed
  qed
next
  show "js_size (selectedIds (run evs init)) \<le> 4" and "distinct (selectedIds (run evs init))"
    using reachable_selection_ok [of evs] by (simp_all add: selection_ok_def)
qed

theorem toggleSelection_bounded_witness:
  "js_size (selectedIds four_selected) = 4
   \<and> js_has (selectedIds four_selected) (ascii ''img2'')
   \<and> selectedIds (fst (toggleSelection (ascii ''img2'') four_selected))
        = [ascii ''img1'', ascii ''img3'', ascii ''img4'']
   \<and> \<not> js_has (selectedIds four_selected) (ascii ''img5'')
   \<and> fst (toggleSelection (ascii ''img5'') four_selected) = four_selected
   \<and> snd (toggleSelection (ascii ''img5'') four_selected)
        = Some (ascii ''You can select up to 4 images max.'')
   \<and> \<not> js_has (selectedIds gallery) (ascii ''img2'')
   \<and> js_size (selectedIds gallery) = 3
   \<and> selectedIds (fst (toggleSelection (ascii ''img2'') gallery))
        = [ascii ''img1'', ascii ''img3'', ascii ''img5'', ascii ''img2'']"
  using toggleSelection_bounded [of four_selected "ascii ''img2''" "[]"]
    toggleSelection_bounded [of four_selected "ascii ''img5''" "[]"]
    toggleSelection_bounded [of gallery "ascii ''img2''" "[]"]
  by (simp add: four_selected_def gallery_def js_size_def js_has_def js_delete_def ascii_def)

text \<open>
  C4. \<open>removeImage\<close> filters the images with the id out of the collection and deletes
  the id from the selection: the id is neither in the collection nor in the selection
  nor among the selected images afterwards, the selection is the old one minus the id,
  a selection that names only images of the collection still does so, and in every
  state the application reaches the selection names only images of the collection.
\<close>

theorem removeImage_selection:
  "images (removeImage i st) = filter (\<lambda>img. image_id img \<noteq> i) (images st)
   \<and> i \<notin> image_id ` set (images (removeImage i st))
   \<and> selectedIds (removeImage i st) = removeAll i (selectedIds st)
   \<and> \<not> js_has (selectedIds (removeImage i st)) i
   \<and> set (selectedIds (removeImage i st)) = set (selectedIds st) - {i}
   \<and> (set (selectedIds st) \<subseteq> image_id ` set (images st) \<longrightarrow>
        set (selectedIds (removeImage i st)) \<subseteq> image_id ` set (images (removeImage i st)))
   \<and> i \<notin> image_id ` set (selectedImagesList (removeImage i st))
   \<and> set (selectedIds (run evs init)) \<subseteq> image_id ` set (images (run evs init))"
proof (intro conjI)
  show "images (removeImage i st) = filter (\<lambda>img. image_id img \<noteq> i) (images st)"
    by (rule removeImage_images)
  then show "i \<notin> image_id ` set (images (removeImage i st))" by auto
  show "selectedIds (removeImage i st) = removeAll i (selectedIds st)"
    by (rule removeImage_selectedIds)
  then show "\<not> js_has (selectedIds (removeImage i st)) i"
    and "set (selectedIds (removeImage i st)) = set (selectedIds st) - {i}"
    by (simp_all add: js_has_def)
  show "set (selectedIds st) \<subseteq> image_id ` set (images st) \<longrightarrow>
        set (selectedIds (removeImage i st)) \<subseteq> image_id ` set (images (removeImage i st))"
    using removeImage_subset by blast
  show "i \<notin> image_id ` set (selectedImagesList (removeImage i st))"
    by (auto simp: selectedImagesList_def removeImage_images)
  show "set (selectedIds (run evs init)) \<subseteq> image_id ` set (images (run evs init))"
    using reachable_selection_ok [of evs] by (simp add: selection_ok_def)
qed

theorem removeImage_selection_witness:
  "set (selectedIds gallery) \<subseteq> image_id ` set (images gallery)
   \<and> selectedIds (removeImage (ascii ''img3'') gallery) = [ascii ''img1'', ascii ''img5'']
   \<and> selectedImagesList (removeImage (ascii ''img3'') gallery)
        = [uploaded ''img1'' ''imgA'', uploaded ''img5'' ''imgE'']
   \<and> images (removeImage (ascii ''img3'') gallery)
        = [uploaded ''img1'' ''imgA'', uploaded ''img2'' ''imgB'', uploaded ''img4'' ''imgD'',
           uploaded ''img5'' ''imgE'']
   \<and> 2 \<le> js_size (selectedIds (removeImage (ascii ''img3'') gallery))"
  using removeImage_selection [of "ascii ''img3''" gallery "[]"]
  by (simp add: gallery_def uploaded_def ascii_def selectedImagesList_def js_has_def js_size_def)




text \<open>
  C6. The list handed to the blend editor is the collection, in its order, filtered to
  the images whose id is selected (a subsequence of the collection); the reference image
  is the first image of the collection whose id is selected; both depend on the members
  of the selection only, not on the order in which they were added.
\<close>

theorem selectedImagesList_gallery_order:
  "selectedImagesList st = filter (\<lambda>img. image_id img \<in> set (selectedIds st)) (images st)
   \<and> subseq (selectedImagesList st) (images st)
   \<and> referenceImage (selectedImagesList st)
        = find (\<lambda>img. image_id img \<in> set (selectedIds st)) (images st)
   \<and> (images st' = images st \<and> set (selectedIds st') = set (selectedIds st) \<longrightarrow>
        selectedImagesList st' = selectedImagesList st
        \<and> referenceImage (selectedImagesList st') = referenceImage (selectedImagesList st))"
proof -
  have find_filter: "(case filter P xs of [] \<Rightarrow> None | x # r \<Rightarrow> Some x) = find P xs" for P and xs :: "image_item list"
    by (induction xs) simp_all
  show ?thesis
    by (simp add: selectedImagesList_def js_has_def referenceImage_def find_filter)
qed

theorem selectedImagesList_gallery_order_witness:
  "images (gallery\<lparr>selectedIds := [ascii ''img5'', ascii ''img3'']\<rparr>)
     = images (gallery\<lparr>selectedIds := [ascii ''img3'', ascii ''img5'']\<rparr>)
   \<and> set (selectedIds (gallery\<lparr>selectedIds := [ascii ''img5'', ascii ''img3'']\<rparr>))
     = set (selectedIds (gallery\<lparr>selectedIds := [ascii ''img3'', ascii ''img5'']\<rparr>))
   \<and> selectedImagesList (gallery\<lparr>selectedIds := [ascii ''img5'', ascii ''img3'']\<rparr>)
     = [uploaded ''img3'' ''imgC'', uploaded ''img5'' ''imgE'']
   \<and> referenceImage (selectedImagesList (gallery\<lparr>selectedIds := [ascii ''img5'', ascii ''img3'']\<rparr>))
     = Some (uploaded ''img3'' ''imgC'')
   \<and> referenceImage (selectedImagesList (gallery\<lparr>selectedIds := [ascii ''img3'', ascii ''img5'']\<rparr>))
     = Some (uploaded ''img3'' ''imgC'')"
  using selectedImagesList_gallery_order
     [of "gallery\<lparr>selectedIds := [ascii ''img3'', ascii ''img5'']\<rparr>"
         "gallery\<lparr>selectedIds := [ascii ''img5'', ascii ''img3'']\<rparr>"]
  by (simp add: gallery_def uploaded_def ascii_def referenceImage_def insert_commute)

text \<open>
  C7, as the claim states it, fails for a container of width 0: \<open>x\<close> is 0, \<open>0 / 0\<close> is
  NaN, and NaN is what \<open>handleDrag\<close> passes to \<open>setSliderPos\<close>; it is not within
  [0,100], and the formula of the specification gives 100 there.
\<close>

theorem handleDrag_counterexample:
  "handleDrag nearest_1024th 10 (Some \<lparr>rect_left = 0, rect_width = 0\<rparr>) = Some NaN
   \<and> \<not> within_0_100 NaN
   \<and> boundary_percentage nearest_1024th 10 0 0 = Num 100"
  by (simp add: handleDrag_def js_div_def js_times_def nearest_1024th_def within_0_100_def
      boundary_percentage_def clamp_def)

text \<open>
  C7, amended. For a mounted container of positive width and every pointer coordinate
  (left of it, inside it or right of it), the percentage \<open>handleDrag\<close> computes equals
  \<open>clamp((pointerX - containerLeft) / containerWidth, 0, 1) * 100\<close> in the same rounded
  arithmetic, and lies within [0,100]. This holds for every monotone rounding that
  represents 0, 1 and 100.
\<close>

theorem handleDrag_clamped:
  assumes "rounding rnd" and "0 < rect_width rect"
  shows "handleDrag rnd clientX (Some rect)
           = Some (boundary_percentage rnd clientX (rect_left rect) (rect_width rect))
         \<and> within_0_100 (boundary_percentage rnd clientX (rect_left rect) (rect_width rect))"
proof -
  let ?w = "rect_width rect" and ?d = "rnd (clientX - rect_left rect)"
  let ?y = "max 0 (min (rnd (?d / ?w)) 1)"
  have ne: "?w \<noteq> 0" using assms(2) by simp
  have spec: "boundary_percentage rnd clientX (rect_left rect) ?w = Num (rnd (?y * 100))"
    using ne by (simp add: boundary_percentage_def js_div_def clamp_def js_times_def)
  have code: "handleDrag rnd clientX (Some rect) = Some (Num (rnd (rnd (max 0 (min ?d ?w) / ?w) * 100)))"
    using ne by (simp add: handleDrag_def js_div_def js_times_def Let_def)
  have "0 \<le> ?y" and "?y \<le> 1" by simp_all
  from rounded_percent_range [OF assms(1) this]
  have "within_0_100 (Num (rnd (?y * 100)))" by (simp add: within_0_100_def)
  with spec code rounded_ratio [OF assms, of ?d] show ?thesis by simp
qed

theorem handleDrag_clamped_witness:
  "rounding nearest_1024th
   \<and> (0::real) < rect_width \<lparr>rect_left = 100, rect_width = 90\<rparr>
   \<and> handleDrag nearest_1024th 130 (Some \<lparr>rect_left = 100, rect_width = 90\<rparr>)
       = Some (Num (8525 / 256))
   \<and> boundary_percentage nearest_1024th 130 100 90 = Num (8525 / 256)
   \<and> handleDrag nearest_1024th 40 (Some \<lparr>rect_left = 100, rect_width = 90\<rparr>) = Some (Num 0)
   \<and> handleDrag nearest_1024th 500 (Some \<lparr>rect_left = 100, rect_width = 90\<rparr>) = Some (Num 100)
   \<and> within_0_100 (Num (8525 / 256))"
proof -
  have w: "(0::real) < rect_width \<lparr>rect_left = 100, rect_width = 90\<rparr>" by simp
  note t = handleDrag_clamped [OF rounding_nearest_1024th w]
  have a: "boundary_percentage nearest_1024th 130 100 90 = Num (8525 / 256)"
    by (simp add: boundary_percentage_def js_div_def js_times_def clamp_def nearest_1024th_def)
  have b: "boundary_percentage nearest_1024th 40 100 90 = Num 0"
    by (simp add: boundary_percentage_def js_div_def js_times_def clamp_def nearest_1024th_def)
  have c: "boundary_percentage nearest_1024th 500 100 90 = Num 100"
    by (simp add: boundary_percentage_def js_div_def js_times_def clamp_def nearest_1024th_def)
  from t [of 130] t [of 40] t [of 500] a b c rounding_nearest_1024th w show ?thesis by simp
qed

text \<open>
  C8. An update for an id that no image of the collection carries changes nothing: the
  collection that results is the collection as it was (every current content, every
  version list), and the handler has no other output through which the lookup failure
  could reach the user.
\<close>

theorem handleUpdateImage_unknown_id:
  "\<forall>img \<in> set prev. image_id img \<noteq> i \<Longrightarrow> handleUpdateImage i newUrl p fresh now prev = prev"
  unfolding handleUpdateImage_def by (induction prev) simp_all

theorem handleUpdateImage_unknown_id_witness:
  "ascii ''img9'' \<notin> image_id ` set (images gallery)
   \<and> handleUpdateImage (ascii ''img9'') (ascii ''imgZ'') (ascii ''add glow'') (ascii ''v1'') 7
        (images gallery) = images gallery"
proof -
  have h: "\<forall>img \<in> set (images gallery). image_id img \<noteq> ascii ''img9''"
    by (simp add: gallery_def uploaded_def ascii_def)
  have "ascii ''img9'' \<notin> image_id ` set (images gallery)"
    by (simp add: gallery_def uploaded_def ascii_def)
  with handleUpdateImage_unknown_id [OF h] show ?thesis by simp
qed

text \<open>
  C9. With no viewing index the active content is the current content; with a viewing
  index inside the version list it is the content of that version. For an image without
  versions, after an update with content B and prompt "make it sketch" and an update with
  content C and prompt "add glow": the current content is C, the versions are the B
  entry and the C entry, and the active content at viewing index 0 is B.
\<close>

theorem activeUrl_resolution:
  "activeUrl None img = Inr (currentUrl img)
   \<and> (v < length (versions img) \<longrightarrow> activeUrl (Some v) img = Inr (url (versions img ! v)))
   \<and> (k < length imgs \<and> image_id (imgs ! k) = i \<and> versions (imgs ! k) = [] \<longrightarrow>
        (let edited = handleUpdateImage i C (ascii ''add glow'') fresh2 now2
                        (handleUpdateImage i B (ascii ''make it sketch'') fresh1 now1 imgs) ! k
         in currentUrl edited = C
            \<and> originalUrl edited = originalUrl (imgs ! k)
            \<and> versions edited =
                 [\<lparr>version_id = fresh1, url = B, prompt = ascii ''make it sketch'', timestamp = now1\<rparr>,
                  \<lparr>version_id = fresh2, url = C, prompt = ascii ''add glow'', timestamp = now2\<rparr>]
            \<and> activeUrl (Some 0) edited = Inr B
            \<and> activeUrl (Some 1) edited = Inr C
            \<and> activeUrl None edited = Inr C))"
  by (simp add: activeUrl_def handleUpdateImage_length handleUpdateImage_nth Let_def)

theorem activeUrl_resolution_witness:
  "(0::nat) < length (versions edited_once)
   \<and> activeUrl (Some 0) edited_once = Inr (ascii ''imgB'')
   \<and> (0::nat) < length [uploaded ''img1'' ''imgA'']
   \<and> versions ([uploaded ''img1'' ''imgA''] ! 0) = []
   \<and> activeUrl (Some 0)
        (handleUpdateImage (ascii ''img1'') (ascii ''imgC'') (ascii ''add glow'') (ascii ''v2'') 9
           (handleUpdateImage (ascii ''img1'') (ascii ''imgB'') (ascii ''make it sketch'')
              (ascii ''v1'') 7 [uploaded ''img1'' ''imgA'']) ! 0) = Inr (ascii ''imgB'')
   \<and> currentUrl
        (handleUpdateImage (ascii ''img1'') (ascii ''imgC'') (ascii ''add glow'') (ascii ''v2'') 9
           (handleUpdateImage (ascii ''img1'') (ascii ''imgB'') (ascii ''make it sketch'')
              (ascii ''v1'') 7 [uploaded ''img1'' ''imgA'']) ! 0) = ascii ''imgC''"
  using activeUrl_resolution [of edited_once 0 0 "[uploaded ''img1'' ''imgA'']" "ascii ''img1''"
      "ascii ''imgC''" "ascii ''v2''" 9 "ascii ''imgB''" "ascii ''v1''" 7]
  by (simp add: edited_once_def uploaded_def Let_def)

text \<open>
  C10. When the prompt of the single-image editor is empty or has white space only,
  \<open>handleGenerate\<close> performs no action at all: no request to the edit collaborator, no
  \<open>onUpdateImage\<close> (so no version is appended and no content changes), no change of the
  processing flag and no error message; the editor state and the collection are as
  before.
\<close>

theorem Editor_handleGenerate_blank:
  "(\<forall>c \<in> set p. js_whitespace c) \<longrightarrow>
     Editor_handleGenerate p faces sourceImage img reply = []
     \<and> perform_all fresh now (Editor_handleGenerate p faces sourceImage img reply) (ed, imgs)
         = (ed, imgs)"
  by (simp add: Editor_handleGenerate_def trim_empty_iff [symmetric] perform_all_def)

theorem Editor_handleGenerate_blank_witness:
  "js_whitespace 0x20 \<and> js_whitespace 0x09 \<and> js_whitespace 0x0A \<and> js_whitespace 0x3000
   \<and> Editor_handleGenerate [0x20, 0x09, 0x0A, 0x3000] True (ascii ''imgA'')
        (uploaded ''img1'' ''imgA'') (Inr (ascii ''imgB'')) = []
   \<and> Editor_handleGenerate [] True (ascii ''imgA'')
        (uploaded ''img1'' ''imgA'') (Inr (ascii ''imgB'')) = []
   \<and> perform_all (ascii ''v1'') 7
        (Editor_handleGenerate [0x20, 0x09, 0x0A, 0x3000] True (ascii ''imgA'')
           (uploaded ''img1'' ''imgA'') (Inr (ascii ''imgB'')))
        (idle_editor, [uploaded ''img1'' ''imgA''])
      = (idle_editor, [uploaded ''img1'' ''imgA''])"
  using Editor_handleGenerate_blank [of "[0x20, 0x09, 0x0A, 0x3000]" True "ascii ''imgA''"
      "uploaded ''img1'' ''imgA''" "Inr (ascii ''imgB'')" "ascii ''v1''" 7 idle_editor
      "[uploaded ''img1'' ''imgA'']"]
    Editor_handleGenerate_blank [of "[]" True "ascii ''imgA''"
      "uploaded ''img1'' ''imgA''" "Inr (ascii ''imgB'')" "ascii ''v1''" 7 idle_editor
      "[uploaded ''img1'' ''imgA'']"]
  by (simp add: js_whitespace_def perform_all_def)

end
